theory Spec2Isabelle
  imports Main "HOL-Library.Word" "HOL-Library.AList" "HOL-Library.Char_ord"
    "HOL-Library.List_Lexorder"
begin

section \<open>Errors\<close>

text \<open>
  The package declares two error values with \<^verbatim>\<open>errors.New\<close>:
  \<^verbatim>\<open>errOpNoSupport\<close> ("operation not supported") and \<^verbatim>\<open>errBufferTooShort\<close>
  ("buffer too short"). \<^verbatim>\<open>Info.MarshalJSON\<close> hands back the error of
  \<^verbatim>\<open>json.Marshal\<close>, which belongs to the encoding library and is neither of the
  two; it is the third constructor and carries the library's message.
  A Go \<^verbatim>\<open>error\<close> result is an \<open>error option\<close>, with \<open>None\<close> for \<^verbatim>\<open>nil\<close>.
\<close>

datatype error = errOpNoSupport | errBufferTooShort | errJSON string

fun Error :: "error \<Rightarrow> string" where
  "Error errOpNoSupport = ''operation not supported''"
| "Error errBufferTooShort = ''buffer too short''"
| "Error (errJSON msg) = msg"

section \<open>Connection states\<close>

text \<open>
  \<^verbatim>\<open>type State int\<close> with twelve constants numbered by \<^verbatim>\<open>iota\<close>. Every Go
  \<^verbatim>\<open>int\<close> is an integer, so a statement for all integers covers every State value.
\<close>

type_synonym State = int

definition Unknown :: State where "Unknown = 0"
definition Closed :: State where "Closed = 1"
definition Listen :: State where "Listen = 2"
definition SynSent :: State where "SynSent = 3"
definition SynReceived :: State where "SynReceived = 4"
definition Established :: State where "Established = 5"
definition FinWait1 :: State where "FinWait1 = 6"
definition FinWait2 :: State where "FinWait2 = 7"
definition CloseWait :: State where "CloseWait = 8"
definition LastAck :: State where "LastAck = 9"
definition Closing :: State where "Closing = 10"
definition TimeWait :: State where "TimeWait = 11"

text \<open>The map literal \<^verbatim>\<open>states\<close>, entry by entry.\<close>

definition states :: "State \<rightharpoonup> string" where
  "states = map_of
     [(Unknown, ''unknown''),
      (Closed, ''closed''),
      (Listen, ''listen''),
      (SynSent, ''syn-sent''),
      (SynReceived, ''syn-received''),
      (Established, ''established''),
      (FinWait1, ''fin-wait-1''),
      (FinWait2, ''fin-wait-2''),
      (CloseWait, ''close-wait''),
      (LastAck, ''last-ack''),
      (Closing, ''closing''),
      (TimeWait, ''time-wait'')]"

text \<open>
  \<^verbatim>\<open>func (st State) String() string\<close>: the two-result map read never panics; a
  missing key takes the \<^verbatim>\<open>!ok\<close> branch.
\<close>

definition State_String :: "State \<Rightarrow> string" where
  "State_String st = (case states st of None \<Rightarrow> ''<nil>'' | Some s \<Rightarrow> s)"

section \<open>Byte slices and strings\<close>

text \<open>
  A \<^verbatim>\<open>[]byte\<close> is a list of bytes or the \<^verbatim>\<open>nil\<close> slice (\<open>None\<close>), which
  has length 0 like the empty slice but is a different value. A Go string is a sequence
  of bytes; \<^verbatim>\<open>[]byte(s)\<close> and \<^verbatim>\<open>string(b)\<close> copy the bytes one to one.
\<close>

type_synonym byte = "8 word"
type_synonym bytes = "byte list option"

definition len :: "bytes \<Rightarrow> nat" where
  "len b = (case b of None \<Rightarrow> 0 | Some xs \<Rightarrow> length xs)"

definition bytes_of_string :: "string \<Rightarrow> bytes" where
  "bytes_of_string s = Some (map (\<lambda>c. of_nat (of_char c)) s)"

definition string_of_bytes :: "bytes \<Rightarrow> string" where
  "string_of_bytes b = (case b of None \<Rightarrow> [] | Some xs \<Rightarrow> map (\<lambda>w. char_of (unat w)) xs)"

section \<open>Congestion control options\<close>

text \<open>
  \<^verbatim>\<open>type CCInfo struct { Raw []byte }\<close> and \<^verbatim>\<open>type CCAlgorithm string\<close>.
  A \<^verbatim>\<open>*CCInfo\<close> is an \<open>option\<close>, \<open>None\<close> for the \<^verbatim>\<open>nil\<close> pointer. A method
  that reads a field through a \<^verbatim>\<open>nil\<close> receiver panics with a nil pointer
  dereference and returns nothing: a call that may panic has a result in
  \<open>panic + 'a\<close>, \<open>Inl\<close> for the panic.
\<close>

datatype panic = NilDereference

record CCInfo =
  Raw :: bytes

type_synonym CCAlgorithm = string

text \<open>
  The values of the interface \<^verbatim>\<open>tcpopt.Option\<close> that this file makes: a pointer to
  a \<^verbatim>\<open>CCInfo\<close> and a \<^verbatim>\<open>CCAlgorithm\<close>. An interface result is an \<open>option\<close>,
  \<open>None\<close> for the \<^verbatim>\<open>nil\<close> interface.
\<close>

datatype tcpopt_Option = PtrCCInfo "CCInfo option" | ValCCAlgorithm CCAlgorithm

definition CCInfo_Marshal :: "CCInfo option \<Rightarrow> panic + bytes \<times> error option" where
  "CCInfo_Marshal cci =
     (case cci of
        None \<Rightarrow> Inl NilDereference
      | Some c \<Rightarrow> Inr (Raw c, None))"

definition parseCCInfo :: "bytes \<Rightarrow> tcpopt_Option option \<times> error option" where
  "parseCCInfo b = (Some (PtrCCInfo (Some \<lparr>Raw = b\<rparr>)), None)"

definition CCAlgorithm_Marshal :: "CCAlgorithm \<Rightarrow> bytes \<times> error option" where
  "CCAlgorithm_Marshal cca =
     (if cca = [] then (None, None) else (bytes_of_string cca, None))"

definition parseCCAlgorithm :: "bytes \<Rightarrow> tcpopt_Option option \<times> error option" where
  "parseCCAlgorithm b = (Some (ValCCAlgorithm (string_of_bytes b)), None)"

text \<open>The method \<^verbatim>\<open>Marshal\<close> called on an interface value goes to the receiver's type.\<close>

fun Marshal :: "tcpopt_Option \<Rightarrow> panic + bytes \<times> error option" where
  "Marshal (PtrCCInfo cci) = CCInfo_Marshal cci"
| "Marshal (ValCCAlgorithm cca) = Inr (CCAlgorithm_Marshal cca)"

section \<open>Congestion control algorithm information\<close>

text \<open>
  \<^verbatim>\<open>type CCAlgorithmInfo interface { Algorithm() string }\<close>: a value of the interface
  is a record of what its method returns, with the algorithm's own fields in \<open>payload\<close>.
\<close>

record 'p CCAlgorithmInfo =
  Algorithm :: string
  payload :: 'p

text \<open>
  Modelled from the spec: \<^verbatim>\<open>parseCCAlgorithmInfo\<close> and the decoder registry it reads
  are in the platform files, not in option.go. The spec (4.4) has it look up a decoder
  keyed by the algorithm name and invoke it on the raw bytes to produce the record, and
  fail with "operation not supported" if no decoder is registered for that name; the
  record "exposes the algorithm name that produced it" (3). The registry \<open>reg\<close> is a
  parameter.
\<close>

definition parseCCAlgorithmInfo ::
  "(string \<rightharpoonup> (bytes \<Rightarrow> 'p)) \<Rightarrow> string \<Rightarrow> bytes \<Rightarrow> 'p CCAlgorithmInfo option \<times> error option" where
  "parseCCAlgorithmInfo reg name b =
     (case reg name of
        None \<Rightarrow> (None, Some errOpNoSupport)
      | Some decoder \<Rightarrow> (Some \<lparr>Algorithm = name, payload = decoder b\<rparr>, None))"

text \<open>
  \<^verbatim>\<open>ParseCCAlgorithmInfo\<close> calls the platform's \<^verbatim>\<open>parseCCAlgorithmInfo\<close>, here
  the parameter \<open>inner\<close>, and returns \<^verbatim>\<open>nil\<close> with the error when there is one.
\<close>

definition ParseCCAlgorithmInfo ::
  "(string \<Rightarrow> bytes \<Rightarrow> 'r option \<times> error option) \<Rightarrow> string \<Rightarrow> bytes \<Rightarrow> 'r option \<times> error option" where
  "ParseCCAlgorithmInfo inner name b =
     (case inner name b of
        (ccai, err) \<Rightarrow> if err \<noteq> None then (None, err) else (ccai, None))"

section \<open>JSON documents\<close>

text \<open>
  What \<^verbatim>\<open>json.Marshal\<close> writes, as a tree. An object is the list of its members
  in the order they are written.
\<close>

datatype json =
    JNull
  | JBool bool
  | JNum int
  | JStr string
  | JArr "json list"
  | JObj "(string \<times> json) list"

fun members :: "json \<Rightarrow> (string \<times> json) list" where
  "members (JObj kvs) = kvs"
| "members _ = []"

definition keys :: "json \<Rightarrow> string set" where
  "keys doc = fst ` set (members doc)"

definition member :: "json \<Rightarrow> string \<rightharpoonup> json" where
  "member doc k = map_of (members doc) k"

section \<open>Connection information\<close>

text \<open>
  Modelled from the spec: the interface \<^verbatim>\<open>Option\<close> of the elements of
  \<^verbatim>\<open>Info.Options\<close>, its method \<^verbatim>\<open>Kind\<close> and \<^verbatim>\<open>OptionKind.String\<close> are declared
  outside option.go. The spec (4.5) gives every option a human-readable kind name. An
  option value is the record of what \<^verbatim>\<open>Info.MarshalJSON\<close> observes of it:
  \<open>Kind_String\<close> is the result of \<^verbatim>\<open>opt.Kind().String()\<close>, and \<open>encoding\<close> is what
  \<^verbatim>\<open>json.Marshal\<close> makes of the value, a document or the message of an encoding
  error (the interface is open, and the encoder fails on a value whose type it does
  not support or whose own \<^verbatim>\<open>MarshalJSON\<close> fails). The elements of a sequence of
  options are values, not the \<^verbatim>\<open>nil\<close> interface.
\<close>

record Option =
  Kind_String :: string
  encoding :: "string + json"

text \<open>
  Modelled from the spec: \<^verbatim>\<open>MaxSegSize\<close> is declared outside option.go; the spec (3)
  has it unsigned. Go's \<^verbatim>\<open>uint\<close> is taken at 64 bits, \<^verbatim>\<open>time.Duration\<close> is an
  \<^verbatim>\<open>int64\<close>.
\<close>

type_synonym uint = "64 word"
type_synonym MaxSegSize = uint
type_synonym Duration = "64 word"

record FlowControl =
  ReceiverWindow :: uint

record CongestionControl =
  SenderSSThreshold :: uint
  ReceiverSSThreshold :: uint
  SenderWindow :: uint

text \<open>
  Modelled from the spec: \<^verbatim>\<open>SysInfo\<close>, the platform-specific extension block, is a
  struct declared in the platform files. It is held as the members its fields encode to.
\<close>

type_synonym SysInfo = "(string \<times> json) list"

text \<open>
  A pointer field is an \<open>option\<close>, \<open>None\<close> for \<^verbatim>\<open>nil\<close>. The receiver of
  \<^verbatim>\<open>Info.MarshalJSON\<close> is the \<^verbatim>\<open>Info\<close> it points to.
\<close>

record Info =
  State :: State
  Options :: "Option list"
  PeerOptions :: "Option list"
  SenderMSS :: MaxSegSize
  ReceiverMSS :: MaxSegSize
  RTT :: Duration
  RTTVar :: Duration
  RTO :: Duration
  ATO :: Duration
  LastDataSent :: Duration
  LastDataReceived :: Duration
  LastAckReceived :: Duration
  FlowControl :: "FlowControl option"
  CongestionControl :: "CongestionControl option"
  Sys :: "SysInfo option"

text \<open>
  A Go map with string keys is an association list with one entry for each key;
  \<^verbatim>\<open>m[k] = v\<close> replaces the entry of \<open>k\<close> or adds one.
\<close>

definition put :: "(string \<times> 'v) list \<Rightarrow> string \<Rightarrow> 'v \<Rightarrow> (string \<times> 'v) list" where
  "put m k v = AList.update k v m"

text \<open>The values that \<^verbatim>\<open>Info.MarshalJSON\<close> stores in \<^verbatim>\<open>map[string]interface{}\<close>.\<close>

datatype val =
    VString string
  | VOpts "(string \<times> Option) list"
  | VMaxSegSize MaxSegSize
  | VDuration Duration
  | VFlowControl FlowControl
  | VCongestionControl CongestionControl
  | VSysInfo SysInfo

text \<open>
  \<^verbatim>\<open>json.Marshal\<close> on these values. A map is written as an object with its keys
  sorted; a struct as an object with its fields in the order of declaration under their
  tags; an unsigned and a signed integer as a number; a string as a string. The first
  value that fails to encode ends the encoding with its error.
\<close>

fun encode_opts :: "(string \<times> Option) list \<Rightarrow> string + (string \<times> json) list" where
  "encode_opts [] = Inr []"
| "encode_opts ((k, opt) # kvs) =
     (case encoding opt of
        Inl e \<Rightarrow> Inl e
      | Inr j \<Rightarrow> (case encode_opts kvs of Inl e \<Rightarrow> Inl e | Inr js \<Rightarrow> Inr ((k, j) # js)))"

fun encode_val :: "val \<Rightarrow> string + json" where
  "encode_val (VString s) = Inr (JStr s)"
| "encode_val (VOpts m) =
     (case encode_opts (sort_key fst m) of Inl e \<Rightarrow> Inl e | Inr js \<Rightarrow> Inr (JObj js))"
| "encode_val (VMaxSegSize n) = Inr (JNum (uint n))"
| "encode_val (VDuration d) = Inr (JNum (sint d))"
| "encode_val (VFlowControl fc) =
     Inr (JObj [(''rcv_wnd'', JNum (uint (ReceiverWindow fc)))])"
| "encode_val (VCongestionControl cc) =
     Inr (JObj [(''snd_ssthresh'', JNum (uint (SenderSSThreshold cc))),
                (''rcv_ssthresh'', JNum (uint (ReceiverSSThreshold cc))),
                (''snd_cwnd'', JNum (uint (SenderWindow cc)))])"
| "encode_val (VSysInfo fs) = Inr (JObj fs)"

fun encode_map :: "(string \<times> val) list \<Rightarrow> string + (string \<times> json) list" where
  "encode_map [] = Inr []"
| "encode_map ((k, v) # kvs) =
     (case encode_val v of
        Inl e \<Rightarrow> Inl e
      | Inr j \<Rightarrow> (case encode_map kvs of Inl e \<Rightarrow> Inl e | Inr js \<Rightarrow> Inr ((k, j) # js)))"

definition json_Marshal :: "(string \<times> val) list \<Rightarrow> json option \<times> error option" where
  "json_Marshal raw =
     (case encode_map (sort_key fst raw) of
        Inl e \<Rightarrow> (None, Some (errJSON e))
      | Inr js \<Rightarrow> (Some (JObj js), None))"

text \<open>The loop \<^verbatim>\<open>for _, opt := range xs { opts[opt.Kind().String()] = opt }\<close>.\<close>

fun range_opts :: "(string \<times> Option) list \<Rightarrow> Option list \<Rightarrow> (string \<times> Option) list" where
  "range_opts opts [] = opts"
| "range_opts opts (opt # xs) = range_opts (put opts (Kind_String opt) opt) xs"

text \<open>
  The map \<^verbatim>\<open>raw\<close> that \<^verbatim>\<open>Info.MarshalJSON\<close> fills, statement by statement, and
  the method itself, which hands the map to \<^verbatim>\<open>json.Marshal\<close>.
\<close>

definition raw_of :: "Info \<Rightarrow> (string \<times> val) list" where
  "raw_of i =
     (let raw = [];
          raw = put raw ''state'' (VString (State_String (State i)));
          raw = (if length (Options i) > 0
                 then put raw ''opts'' (VOpts (range_opts [] (Options i)))
                 else raw);
          raw = (if length (PeerOptions i) > 0
                 then put raw ''peer_opts'' (VOpts (range_opts [] (PeerOptions i)))
                 else raw);
          raw = put raw ''snd_mss'' (VMaxSegSize (SenderMSS i));
          raw = put raw ''rcv_mss'' (VMaxSegSize (ReceiverMSS i));
          raw = put raw ''rtt'' (VDuration (RTT i));
          raw = put raw ''rttvar'' (VDuration (RTTVar i));
          raw = put raw ''rto'' (VDuration (RTO i));
          raw = put raw ''ato'' (VDuration (ATO i));
          raw = put raw ''last_data_sent'' (VDuration (LastDataSent i));
          raw = put raw ''last_data_rcvd'' (VDuration (LastDataReceived i));
          raw = put raw ''last_ack_rcvd'' (VDuration (LastAckReceived i));
          raw = (case FlowControl i of
                   None \<Rightarrow> raw
                 | Some fc \<Rightarrow> put raw ''flow_ctl'' (VFlowControl fc));
          raw = (case CongestionControl i of
                   None \<Rightarrow> raw
                 | Some cc \<Rightarrow> put raw ''cong_ctl'' (VCongestionControl cc));
          raw = (case Sys i of
                   None \<Rightarrow> raw
                 | Some sys \<Rightarrow> put raw ''sys'' (VSysInfo sys))
      in raw)"

definition MarshalJSON :: "Info \<Rightarrow> json option \<times> error option" where
  "MarshalJSON i = json_Marshal (raw_of i)"

section \<open>Reading a document, and two connections\<close>

text \<open>The last option of a sequence that has the kind name \<open>k\<close>.\<close>

definition last_of_kind :: "string \<Rightarrow> Option list \<Rightarrow> Option option" where
  "last_of_kind k xs = find (\<lambda>opt. Kind_String opt = k) (rev xs)"

text \<open>
  An established connection that requested a maximum segment size twice and a window
  scale once, with flow control information and nothing else optional; and the document
  it marshals to.
\<close>

definition example_info :: Info where
  "example_info =
     \<lparr>State = Established,
      Options = [\<lparr>Kind_String = ''mss'', encoding = Inr (JNum 1460)\<rparr>,
                 \<lparr>Kind_String = ''wscale'', encoding = Inr (JNum 7)\<rparr>,
                 \<lparr>Kind_String = ''mss'', encoding = Inr (JNum 536)\<rparr>],
      PeerOptions = [],
      SenderMSS = 1460, ReceiverMSS = 536,
      RTT = 1000, RTTVar = 2000, RTO = 3000, ATO = 0,
      LastDataSent = 0, LastDataReceived = 0, LastAckReceived = 0,
      FlowControl = Some \<lparr>ReceiverWindow = 65535\<rparr>,
      CongestionControl = None,
      Sys = None\<rparr>"

definition example_doc :: json where
  "example_doc =
     JObj [(''ato'', JNum 0),
           (''flow_ctl'', JObj [(''rcv_wnd'', JNum 65535)]),
           (''last_ack_rcvd'', JNum 0),
           (''last_data_rcvd'', JNum 0),
           (''last_data_sent'', JNum 0),
           (''opts'', JObj [(''mss'', JNum 536), (''wscale'', JNum 7)]),
           (''rcv_mss'', JNum 536),
           (''rto'', JNum 3000),
           (''rtt'', JNum 1000),
           (''rttvar'', JNum 2000),
           (''snd_mss'', JNum 1460),
           (''state'', JStr ''established'')]"

text \<open>The same connection with one requested option whose value does not encode.\<close>

definition unencodable_info :: Info where
  "unencodable_info =
     example_info\<lparr>Options :=
       [\<lparr>Kind_String = ''mss'', encoding = Inl ''json: unsupported type''\<rparr>]\<rparr>"

text \<open>
  The same connection with two requested options of one kind, of which the first does
  not encode and the second does.
\<close>

definition overwritten_info :: Info where
  "overwritten_info =
     example_info\<lparr>Options :=
       [\<lparr>Kind_String = ''mss'', encoding = Inl ''json: unsupported type''\<rparr>,
        \<lparr>Kind_String = ''mss'', encoding = Inr (JNum 9)\<rparr>]\<rparr>"

section \<open>State names\<close>

lemmas State_defs =
  Unknown_def Closed_def Listen_def SynSent_def SynReceived_def Established_def
  FinWait1_def FinWait2_def CloseWait_def LastAck_def Closing_def TimeWait_def

lemma states_defined:
  "states Unknown = Some ''unknown''"
  "states Closed = Some ''closed''"
  "states Listen = Some ''listen''"
  "states SynSent = Some ''syn-sent''"
  "states SynReceived = Some ''syn-received''"
  "states Established = Some ''established''"
  "states FinWait1 = Some ''fin-wait-1''"
  "states FinWait2 = Some ''fin-wait-2''"
  "states CloseWait = Some ''close-wait''"
  "states LastAck = Some ''last-ack''"
  "states Closing = Some ''closing''"
  "states TimeWait = Some ''time-wait''"
  by (simp_all add: states_def State_defs)

lemma states_undefined:
  "st < 0 \<or> 11 < st \<Longrightarrow> states st = None"
  by (auto simp: states_def State_defs)

lemma states_nonempty: "states st = Some s \<Longrightarrow> s \<noteq> []"
  by (auto simp: states_def State_defs split: if_splits)

section \<open>Maps, sorted keys and the encoder\<close>

lemma distinct_keys_sort:
  "distinct (map fst (sort_key fst m)) = distinct (map fst m)"
  by (simp add: distinct_map)

lemma map_of_sort:
  assumes "distinct (map fst m)"
  shows "map_of (sort_key fst m) = map_of m"
proof -
  have "distinct (map fst (sort_key fst m))"
    using assms by (simp add: distinct_keys_sort)
  then show ?thesis
    using assms by (simp add: map_of_inject_set)
qed

lemma encode_opts_keys: "encode_opts kvs = Inr js \<Longrightarrow> map fst js = map fst kvs"
  by (induction kvs arbitrary: js rule: encode_opts.induct) (auto split: sum.splits)

lemma encode_opts_lookup:
  "encode_opts kvs = Inr js \<Longrightarrow> map_of kvs k = Some opt \<Longrightarrow>
     \<exists>j. encoding opt = Inr j \<and> map_of js k = Some j"
  by (induction kvs arbitrary: js rule: encode_opts.induct) (auto split: sum.splits if_splits)

lemma encode_opts_fails:
  "encode_opts kvs = Inl e \<Longrightarrow> \<exists>(k, opt) \<in> set kvs. encoding opt = Inl e"
  by (induction kvs rule: encode_opts.induct) (auto split: sum.splits)

lemma encode_opts_succeeds:
  "\<forall>(k, opt) \<in> set kvs. \<exists>j. encoding opt = Inr j \<Longrightarrow> \<exists>js. encode_opts kvs = Inr js"
  by (induction kvs rule: encode_opts.induct) (auto split: sum.splits)

lemma encode_map_keys: "encode_map kvs = Inr js \<Longrightarrow> map fst js = map fst kvs"
  by (induction kvs arbitrary: js rule: encode_map.induct) (auto split: sum.splits)

lemma encode_map_lookup:
  "encode_map kvs = Inr js \<Longrightarrow> map_of kvs k = Some v \<Longrightarrow>
     \<exists>j. encode_val v = Inr j \<and> map_of js k = Some j"
  by (induction kvs arbitrary: js rule: encode_map.induct) (auto split: sum.splits if_splits)

lemma encode_map_fails:
  "encode_map kvs = Inl e \<Longrightarrow> \<exists>(k, v) \<in> set kvs. encode_val v = Inl e"
  by (induction kvs rule: encode_map.induct) (auto split: sum.splits)

lemma encode_map_succeeds:
  "\<forall>(k, v) \<in> set kvs. \<exists>j. encode_val v = Inr j \<Longrightarrow> \<exists>js. encode_map kvs = Inr js"
  by (induction kvs rule: encode_map.induct) (auto split: sum.splits)

lemma distinct_put: "distinct (map fst m) \<Longrightarrow> distinct (map fst (put m k v))"
  by (simp add: put_def distinct_update)

lemma map_of_put: "map_of (put m k v) = (map_of m)(k \<mapsto> v)"
  by (simp add: put_def update_conv')

lemma distinct_range_opts:
  "distinct (map fst opts) \<Longrightarrow> distinct (map fst (range_opts opts xs))"
  by (induction xs arbitrary: opts) (simp_all add: distinct_put)

lemma find_app:
  "find P (xs @ ys) = (case find P xs of None \<Rightarrow> find P ys | Some x \<Rightarrow> Some x)"
  by (induction xs) simp_all

lemma map_of_range_opts:
  "map_of (range_opts opts xs) k =
     (case find (\<lambda>opt. Kind_String opt = k) (rev xs) of
        None \<Rightarrow> map_of opts k
      | Some opt \<Rightarrow> Some opt)"
  by (induction xs arbitrary: opts) (auto simp: map_of_put find_app split: option.splits)

section \<open>The map filled by MarshalJSON\<close>

lemma distinct_if_put:
  "distinct (map fst m) \<Longrightarrow> distinct (map fst (if c then put m k v else m))"
  by (simp add: distinct_put)

lemma distinct_case_put:
  "distinct (map fst m) \<Longrightarrow>
     distinct (map fst (case x of None \<Rightarrow> m | Some y \<Rightarrow> put m k (f y)))"
  by (simp add: distinct_put split: option.splits)

lemma distinct_raw_of: "distinct (map fst (raw_of i))"
  unfolding raw_of_def Let_def
  by (intro distinct_put distinct_if_put distinct_case_put) simp

lemma lookup_put_same: "map_of (put m k v) k = Some v"
  by (simp add: map_of_put)

lemma lookup_put_other: "k' \<noteq> k \<Longrightarrow> map_of (put m k v) k' = map_of m k'"
  by (simp add: map_of_put)

lemma lookup_if_put_same:
  "map_of (if c then put m k v else m) k = (if c then Some v else map_of m k)"
  by (simp add: map_of_put)

lemma lookup_if_put_other:
  "k' \<noteq> k \<Longrightarrow> map_of (if c then put m k v else m) k' = map_of m k'"
  by (simp add: map_of_put)

lemma lookup_case_put_same:
  "map_of (case x of None \<Rightarrow> m | Some y \<Rightarrow> put m k (f y)) k =
     (case x of None \<Rightarrow> map_of m k | Some y \<Rightarrow> Some (f y))"
  by (simp add: map_of_put split: option.splits)

lemma lookup_case_put_other:
  "k' \<noteq> k \<Longrightarrow> map_of (case x of None \<Rightarrow> m | Some y \<Rightarrow> put m k (f y)) k' = map_of m k'"
  by (simp add: map_of_put split: option.splits)

lemmas lookup_raw =
  lookup_put_same lookup_put_other lookup_if_put_same lookup_if_put_other
  lookup_case_put_same lookup_case_put_other

lemma raw_of_state: "map_of (raw_of i) ''state'' = Some (VString (State_String (State i)))"
  unfolding raw_of_def Let_def by (simp add: lookup_raw)

lemma raw_of_opts:
  "map_of (raw_of i) ''opts'' =
     (if Options i = [] then None else Some (VOpts (range_opts [] (Options i))))"
  unfolding raw_of_def Let_def by (simp add: lookup_raw)

lemma raw_of_peer_opts:
  "map_of (raw_of i) ''peer_opts'' =
     (if PeerOptions i = [] then None else Some (VOpts (range_opts [] (PeerOptions i))))"
  unfolding raw_of_def Let_def by (simp add: lookup_raw)

lemma raw_of_flow_ctl:
  "map_of (raw_of i) ''flow_ctl'' = map_option VFlowControl (FlowControl i)"
  unfolding raw_of_def Let_def by (simp add: lookup_raw split: option.splits)

lemma raw_of_cong_ctl:
  "map_of (raw_of i) ''cong_ctl'' = map_option VCongestionControl (CongestionControl i)"
  unfolding raw_of_def Let_def by (simp add: lookup_raw split: option.splits)

lemma raw_of_sys: "map_of (raw_of i) ''sys'' = map_option VSysInfo (Sys i)"
  unfolding raw_of_def Let_def by (simp add: lookup_raw split: option.splits)

lemma set_put: "set (put m k v) \<subseteq> insert (k, v) (set m)"
  unfolding put_def by (induction m) auto

lemma ball_put:
  "\<forall>kv \<in> set m. Q (snd kv) \<Longrightarrow> Q v \<Longrightarrow> \<forall>kv \<in> set (put m k v). Q (snd kv)"
  using set_put [of m k v] by auto

lemma ball_if_put:
  "\<forall>kv \<in> set m. Q (snd kv) \<Longrightarrow> (c \<Longrightarrow> Q v) \<Longrightarrow>
     \<forall>kv \<in> set (if c then put m k v else m). Q (snd kv)"
  using ball_put [of m Q v k] by simp

lemma ball_case_put:
  "\<forall>kv \<in> set m. Q (snd kv) \<Longrightarrow> (\<And>y. x = Some y \<Longrightarrow> Q (f y)) \<Longrightarrow>
     \<forall>kv \<in> set (case x of None \<Rightarrow> m | Some y \<Rightarrow> put m k (f y)). Q (snd kv)"
  using ball_put [of m Q _ k] by (cases x) simp_all

lemma raw_of_values:
  "\<forall>kv \<in> set (raw_of i).
     (\<lambda>v. (\<exists>j. encode_val v = Inr j)
        \<or> v = VOpts (range_opts [] (Options i))
        \<or> v = VOpts (range_opts [] (PeerOptions i))) (snd kv)"
  unfolding raw_of_def Let_def
  by (intro ball_put ball_if_put ball_case_put) simp_all

section \<open>The document\<close>

lemma example_marshal: "MarshalJSON example_info = (Some example_doc, None)"
  by code_simp

lemma unencodable_marshal:
  "MarshalJSON unencodable_info = (None, Some (errJSON ''json: unsupported type''))"
  by code_simp

lemma string_bytes: "string_of_bytes (bytes_of_string s) = s"
  by (simp add: string_of_bytes_def bytes_of_string_def unat_of_nat o_def)

lemma range_opts_values:
  "(k, opt) \<in> set (range_opts opts xs) \<Longrightarrow> (k, opt) \<in> set opts \<or> opt \<in> set xs"
proof (induction xs arbitrary: opts)
  case Nil
  then show ?case by simp
next
  case (Cons x xs)
  then have "(k, opt) \<in> set (put opts (Kind_String x) x) \<or> opt \<in> set xs"
    by simp
  then show ?case
    using set_put [of opts "Kind_String x" x] by auto
qed

lemma encode_VOpts_fails:
  assumes "encode_val (VOpts (range_opts [] xs)) = Inl e"
  shows "\<exists>opt \<in> set xs. encoding opt = Inl e"
proof -
  from assms have "encode_opts (sort_key fst (range_opts [] xs)) = Inl e"
    by (simp split: sum.splits)
  then obtain k opt where "(k, opt) \<in> set (range_opts [] xs)" and "encoding opt = Inl e"
    using encode_opts_fails by fastforce
  then show ?thesis
    using range_opts_values [of k opt "[]" xs] by auto
qed

lemma json_Marshal_cases:
  "(\<exists>js. encode_map (sort_key fst raw) = Inr js \<and> json_Marshal raw = (Some (JObj js), None))
   \<or> (\<exists>e. encode_map (sort_key fst raw) = Inl e \<and> json_Marshal raw = (None, Some (errJSON e)))"
  by (simp add: json_Marshal_def split: sum.splits)

lemma MarshalJSON_failure:
  assumes "snd (MarshalJSON i) = Some err"
  shows "\<exists>opt \<in> set (Options i) \<union> set (PeerOptions i). \<exists>e. encoding opt = Inl e \<and> err = errJSON e"
proof -
  from assms obtain e where e: "encode_map (sort_key fst (raw_of i)) = Inl e" and err: "err = errJSON e"
    using json_Marshal_cases [of "raw_of i"] by (auto simp: MarshalJSON_def)
  from e obtain k v where kv: "(k, v) \<in> set (raw_of i)" and v: "encode_val v = Inl e"
    using encode_map_fails by fastforce
  from kv v raw_of_values [of i]
  have "v = VOpts (range_opts [] (Options i)) \<or> v = VOpts (range_opts [] (PeerOptions i))"
    by fastforce
  with v have "(\<exists>opt \<in> set (Options i). encoding opt = Inl e)
      \<or> (\<exists>opt \<in> set (PeerOptions i). encoding opt = Inl e)"
    using encode_VOpts_fails by blast
  with err show ?thesis by blast
qed

lemma MarshalJSON_succeeds:
  assumes "\<forall>opt \<in> set (Options i) \<union> set (PeerOptions i). \<exists>j. encoding opt = Inr j"
  shows "\<exists>doc. MarshalJSON i = (Some doc, None)"
proof (cases "snd (MarshalJSON i)")
  case None
  then show ?thesis
    using json_Marshal_cases [of "raw_of i"] by (auto simp: MarshalJSON_def)
next
  case (Some err)
  then obtain opt e where opt: "opt \<in> set (Options i) \<union> set (PeerOptions i)"
    and e: "encoding opt = Inl e"
    using MarshalJSON_failure [of i err] by blast
  from assms opt obtain j where "encoding opt = Inr j"
    by blast
  with e show ?thesis by simp
qed

lemma MarshalJSON_document:
  assumes "MarshalJSON i = (Some doc, None)"
  shows "\<exists>js. doc = JObj js \<and> encode_map (sort_key fst (raw_of i)) = Inr js"
  using assms json_Marshal_cases [of "raw_of i"] by (auto simp: MarshalJSON_def)

lemma document_keys:
  assumes "MarshalJSON i = (Some doc, None)"
  shows "keys doc = dom (map_of (raw_of i))"
proof -
  from assms obtain js where doc: "doc = JObj js"
    and js: "encode_map (sort_key fst (raw_of i)) = Inr js"
    using MarshalJSON_document by blast
  have "set (map fst js) = set (map fst (sort_key fst (raw_of i)))"
    using encode_map_keys [OF js] by simp
  then have "fst ` set js = fst ` set (raw_of i)"
    by simp
  then show ?thesis
    by (simp add: doc keys_def dom_map_of_conv_image_fst)
qed

lemma document_member:
  assumes "MarshalJSON i = (Some doc, None)" and "map_of (raw_of i) k = Some v"
  shows "\<exists>j. encode_val v = Inr j \<and> member doc k = Some j"
proof -
  from assms(1) obtain js where doc: "doc = JObj js"
    and js: "encode_map (sort_key fst (raw_of i)) = Inr js"
    using MarshalJSON_document by blast
  have "map_of (sort_key fst (raw_of i)) k = Some v"
    using assms(2) by (simp add: map_of_sort distinct_raw_of)
  then show ?thesis
    using encode_map_lookup [OF js] by (simp add: doc member_def)
qed

lemma member_keys: "k \<in> keys doc \<longleftrightarrow> member doc k \<noteq> None"
  by (simp add: keys_def member_def map_of_eq_None_iff)

lemma last_of_kind_None: "last_of_kind k xs = None \<longleftrightarrow> k \<notin> Kind_String ` set xs"
  by (auto simp: last_of_kind_def find_None_iff)

lemma options_object:
  assumes "encode_val (VOpts (range_opts [] xs)) = Inr j"
  shows "\<exists>ms. j = JObj ms \<and> distinct (map fst ms) \<and> fst ` set ms = Kind_String ` set xs
     \<and> (\<forall>k opt. last_of_kind k xs = Some opt \<longrightarrow>
           (\<exists>e. encoding opt = Inr e \<and> map_of ms k = Some e))"
proof -
  let ?m = "range_opts [] xs"
  from assms obtain ms where j: "j = JObj ms" and ms: "encode_opts (sort_key fst ?m) = Inr ms"
    by (auto split: sum.splits)
  have d: "distinct (map fst ?m)"
    by (simp add: distinct_range_opts)
  have look: "map_of (sort_key fst ?m) k = last_of_kind k xs" for k
    by (simp add: map_of_sort d map_of_range_opts last_of_kind_def split: option.splits)
  have keys: "map fst ms = map fst (sort_key fst ?m)"
    using encode_opts_keys [OF ms] .
  have "distinct (map fst ms)"
    using d by (simp add: keys distinct_keys_sort)
  moreover have "fst ` set ms = Kind_String ` set xs"
  proof -
    have "fst ` set ms = set (map fst ms)" by simp
    also have "\<dots> = fst ` set ?m" by (simp add: keys)
    also have "\<dots> = dom (map_of ?m)" by (simp add: dom_map_of_conv_image_fst)
    also have "\<dots> = {k. last_of_kind k xs \<noteq> None}"
      by (auto simp: map_of_range_opts last_of_kind_def dom_def split: option.splits)
    also have "\<dots> = Kind_String ` set xs"
      by (auto simp: last_of_kind_None)
    finally show ?thesis .
  qed
  moreover have "\<exists>e. encoding opt = Inr e \<and> map_of ms k = Some e"
    if "last_of_kind k xs = Some opt" for k opt
    using encode_opts_lookup [OF ms, of k opt] that by (simp add: look)
  ultimately show ?thesis using j by blast
qed

lemma last_of_kind_range_opts: "map_of (range_opts [] xs) k = last_of_kind k xs"
  by (simp add: map_of_range_opts last_of_kind_def split: option.splits)

lemma range_opts_last:
  assumes "(k, opt) \<in> set (range_opts [] xs)"
  shows "last_of_kind k xs = Some opt"
proof -
  have "distinct (map fst (range_opts [] xs))"
    by (simp add: distinct_range_opts)
  with assms have "map_of (range_opts [] xs) k = Some opt"
    by simp
  then show ?thesis
    by (simp add: last_of_kind_range_opts)
qed

lemma encode_VOpts_fails_last:
  assumes "encode_val (VOpts (range_opts [] xs)) = Inl e"
  shows "\<exists>k opt. last_of_kind k xs = Some opt \<and> encoding opt = Inl e"
proof -
  from assms have "encode_opts (sort_key fst (range_opts [] xs)) = Inl e"
    by (simp split: sum.splits)
  then obtain k opt where "(k, opt) \<in> set (range_opts [] xs)" and "encoding opt = Inl e"
    using encode_opts_fails by fastforce
  then show ?thesis
    using range_opts_last by blast
qed

lemma MarshalJSON_failure_last:
  assumes "snd (MarshalJSON i) = Some err"
  shows "\<exists>k opt e.
      (last_of_kind k (Options i) = Some opt \<or> last_of_kind k (PeerOptions i) = Some opt)
      \<and> encoding opt = Inl e \<and> err = errJSON e"
proof -
  from assms obtain e where e: "encode_map (sort_key fst (raw_of i)) = Inl e"
    and err: "err = errJSON e"
    using json_Marshal_cases [of "raw_of i"] by (auto simp: MarshalJSON_def)
  from e obtain k v where kv: "(k, v) \<in> set (raw_of i)" and v: "encode_val v = Inl e"
    using encode_map_fails by fastforce
  from kv v raw_of_values [of i]
  have "v = VOpts (range_opts [] (Options i)) \<or> v = VOpts (range_opts [] (PeerOptions i))"
    by fastforce
  with v have "(\<exists>k opt. last_of_kind k (Options i) = Some opt \<and> encoding opt = Inl e)
      \<or> (\<exists>k opt. last_of_kind k (PeerOptions i) = Some opt \<and> encoding opt = Inl e)"
    using encode_VOpts_fails_last by blast
  with err show ?thesis by blast
qed

lemma last_of_kind_nonempty: "last_of_kind k xs = Some opt \<Longrightarrow> xs \<noteq> []"
  by (auto simp: last_of_kind_def)

lemma MarshalJSON_last_encodes:
  assumes "snd (MarshalJSON i) = None"
    and "last_of_kind k (Options i) = Some opt \<or> last_of_kind k (PeerOptions i) = Some opt"
  shows "\<exists>j. encoding opt = Inr j"
proof -
  from assms(1) obtain doc where doc: "MarshalJSON i = (Some doc, None)"
    using json_Marshal_cases [of "raw_of i"] by (auto simp: MarshalJSON_def)
  from assms(2) show ?thesis
  proof
    assume last: "last_of_kind k (Options i) = Some opt"
    then have "map_of (raw_of i) ''opts'' = Some (VOpts (range_opts [] (Options i)))"
      using last_of_kind_nonempty [OF last] by (simp add: raw_of_opts)
    then obtain j where "encode_val (VOpts (range_opts [] (Options i))) = Inr j"
      using document_member [OF doc] by blast
    from options_object [OF this] last show ?thesis
      by blast
  next
    assume last: "last_of_kind k (PeerOptions i) = Some opt"
    then have "map_of (raw_of i) ''peer_opts'' = Some (VOpts (range_opts [] (PeerOptions i)))"
      using last_of_kind_nonempty [OF last] by (simp add: raw_of_peer_opts)
    then obtain j where "encode_val (VOpts (range_opts [] (PeerOptions i))) = Inr j"
      using document_member [OF doc] by blast
    from options_object [OF this] last show ?thesis
      by blast
  qed
qed

section \<open>Claims\<close>

text \<open>
  C1, as amended. \<^verbatim>\<open>State.String\<close> returns the fixed canonical name of each of the
  twelve defined states; for every State value outside the defined set it returns the
  string \<^verbatim>\<open><nil>\<close>; it returns for every value, and never the empty string.
\<close>

theorem State_String_names:
  "State_String Unknown = ''unknown''
   \<and> State_String Closed = ''closed''
   \<and> State_String Listen = ''listen''
   \<and> State_String SynSent = ''syn-sent''
   \<and> State_String SynReceived = ''syn-received''
   \<and> State_String Established = ''established''
   \<and> State_String FinWait1 = ''fin-wait-1''
   \<and> State_String FinWait2 = ''fin-wait-2''
   \<and> State_String CloseWait = ''close-wait''
   \<and> State_String LastAck = ''last-ack''
   \<and> State_String Closing = ''closing''
   \<and> State_String TimeWait = ''time-wait''
   \<and> (\<forall>st. st \<notin> {Unknown, Closed, Listen, SynSent, SynReceived, Established, FinWait1,
                   FinWait2, CloseWait, LastAck, Closing, TimeWait}
          \<longrightarrow> State_String st = ''<nil>'')
   \<and> (\<forall>st. State_String st \<noteq> [])"
proof -
  have outside: "State_String st = ''<nil>''"
    if "st \<notin> {Unknown, Closed, Listen, SynSent, SynReceived, Established, FinWait1,
                 FinWait2, CloseWait, LastAck, Closing, TimeWait}" for st
    using that by (simp add: State_String_def states_def)
  have nonempty: "State_String st \<noteq> []" for st
    by (cases "states st") (auto simp: State_String_def dest: states_nonempty)
  show ?thesis
    using outside nonempty by (simp add: State_String_def states_defined)
qed

theorem State_String_names_witness:
  "(12::State) \<notin> {Unknown, Closed, Listen, SynSent, SynReceived, Established, FinWait1,
                    FinWait2, CloseWait, LastAck, Closing, TimeWait}
   \<and> State_String 12 = ''<nil>'' \<and> State_String 12 \<noteq> []
   \<and> State_String Established = ''established''"
  using State_String_names by (simp add: State_defs)

text \<open>
  C1, as stated, fails: 12 is outside the defined set, and its name is neither
  \<^verbatim>\<open>unknown-state\<close> nor \<^verbatim>\<open>unknown\<close>.
\<close>

theorem State_String_sentinel_counterexample:
  "(12::State) \<notin> {Unknown, Closed, Listen, SynSent, SynReceived, Established, FinWait1,
                    FinWait2, CloseWait, LastAck, Closing, TimeWait}
   \<and> State_String 12 = ''<nil>''
   \<and> State_String 12 \<noteq> ''unknown-state''
   \<and> State_String 12 \<noteq> ''unknown''"
  by (simp add: State_String_def states_def State_defs)

text \<open>
  C2. Marshaling the algorithm name \<^verbatim>\<open>cubic\<close> and parsing the bytes gives
  \<^verbatim>\<open>CCAlgorithm("cubic")\<close> back, and so for every name; the empty name marshals to
  a buffer of length 0, and a buffer of length 0 parses to the empty name, a value and
  not the \<^verbatim>\<open>nil\<close> interface.
\<close>

theorem CCAlgorithm_round_trip:
  "parseCCAlgorithm (fst (CCAlgorithm_Marshal ''cubic'')) = (Some (ValCCAlgorithm ''cubic''), None)
   \<and> (\<forall>cca. snd (CCAlgorithm_Marshal cca) = None
          \<and> parseCCAlgorithm (fst (CCAlgorithm_Marshal cca)) = (Some (ValCCAlgorithm cca), None))
   \<and> len (fst (CCAlgorithm_Marshal [])) = 0
   \<and> (\<forall>b. len b = 0 \<longrightarrow> parseCCAlgorithm b = (Some (ValCCAlgorithm []), None))"
proof -
  have round: "parseCCAlgorithm (fst (CCAlgorithm_Marshal cca)) = (Some (ValCCAlgorithm cca), None)"
    for cca
  proof (cases "cca = []")
    case True
    then show ?thesis
      by (simp add: CCAlgorithm_Marshal_def parseCCAlgorithm_def string_of_bytes_def)
  next
    case False
    then show ?thesis
      by (simp add: CCAlgorithm_Marshal_def parseCCAlgorithm_def string_bytes)
  qed
  have empty: "parseCCAlgorithm b = (Some (ValCCAlgorithm []), None)" if "len b = 0" for b
    using that by (cases b) (simp_all add: len_def parseCCAlgorithm_def string_of_bytes_def)
  have err: "snd (CCAlgorithm_Marshal cca) = None" for cca
    by (simp add: CCAlgorithm_Marshal_def)
  have zero: "len (fst (CCAlgorithm_Marshal [])) = 0"
    by (simp add: CCAlgorithm_Marshal_def len_def)
  show ?thesis
    using round [of "''cubic''"] round err zero empty by blast
qed

theorem CCAlgorithm_round_trip_witness:
  "len (Some []) = 0 \<and> parseCCAlgorithm (Some []) = (Some (ValCCAlgorithm []), None)
   \<and> len None = 0 \<and> parseCCAlgorithm None = (Some (ValCCAlgorithm []), None)
   \<and> parseCCAlgorithm (fst (CCAlgorithm_Marshal ''reno'')) = (Some (ValCCAlgorithm ''reno''), None)"
  using CCAlgorithm_round_trip by (simp add: len_def)

text \<open>
  C5. For every byte buffer \<open>b\<close>, \<^verbatim>\<open>parseCCInfo\<close> succeeds with a \<^verbatim>\<open>CCInfo\<close>
  whose \<^verbatim>\<open>Raw\<close> is \<open>b\<close> itself, and marshaling that value returns \<open>b\<close>.
\<close>

theorem parseCCInfo_verbatim:
  "\<exists>cci. parseCCInfo b = (Some (PtrCCInfo (Some cci)), None) \<and> Raw cci = b
     \<and> CCInfo_Marshal (Some cci) = Inr (b, None)
     \<and> Marshal (PtrCCInfo (Some cci)) = Inr (b, None)"
  by (simp add: parseCCInfo_def CCInfo_Marshal_def)

text \<open>
  C6. \<^verbatim>\<open>ParseCCAlgorithmInfo\<close> fails with "operation not supported" when no decoder
  is registered for the name; when one is, it returns a record, not \<^verbatim>\<open>nil\<close>, whose
  \<^verbatim>\<open>Algorithm\<close> is that name.
\<close>

theorem ParseCCAlgorithmInfo_registry:
  "(reg name = None \<longrightarrow>
      ParseCCAlgorithmInfo (parseCCAlgorithmInfo reg) name b = (None, Some errOpNoSupport)
      \<and> Error errOpNoSupport = ''operation not supported'')
   \<and> (reg name \<noteq> None \<longrightarrow>
        (\<exists>r. ParseCCAlgorithmInfo (parseCCAlgorithmInfo reg) name b = (Some r, None)
           \<and> Algorithm r = name))"
  by (auto simp: ParseCCAlgorithmInfo_def parseCCAlgorithmInfo_def)

theorem ParseCCAlgorithmInfo_registry_witness:
  "(Map.empty(''vegas'' \<mapsto> len)) ''bbr'' = None
   \<and> ParseCCAlgorithmInfo (parseCCAlgorithmInfo (Map.empty(''vegas'' \<mapsto> len))) ''bbr'' (Some [1, 2])
       = (None, Some errOpNoSupport)
   \<and> (Map.empty(''vegas'' \<mapsto> len)) ''vegas'' \<noteq> None
   \<and> (\<exists>r. ParseCCAlgorithmInfo (parseCCAlgorithmInfo (Map.empty(''vegas'' \<mapsto> len))) ''vegas'' (Some [1, 2])
          = (Some r, None) \<and> Algorithm r = ''vegas'')"
  using ParseCCAlgorithmInfo_registry [of "Map.empty(''vegas'' \<mapsto> len)" "''bbr''" "Some [1, 2]"]
    ParseCCAlgorithmInfo_registry [of "Map.empty(''vegas'' \<mapsto> len)" "''vegas''" "Some [1, 2]"]
  by simp

text \<open>
  C9, as amended. \<^verbatim>\<open>parseCCInfo\<close> and \<^verbatim>\<open>parseCCAlgorithm\<close> return a \<^verbatim>\<open>nil\<close>
  error for every buffer, and \<^verbatim>\<open>CCAlgorithm.Marshal\<close> for every receiver.
  \<^verbatim>\<open>CCInfo.Marshal\<close> returns \<^verbatim>\<open>Raw\<close> and a \<^verbatim>\<open>nil\<close> error for every receiver
  that is not \<^verbatim>\<open>nil\<close>; on the \<^verbatim>\<open>nil\<close> receiver it panics with a nil pointer
  dereference and returns nothing. None of the four has an error branch: whenever
  \<^verbatim>\<open>CCInfo.Marshal\<close> returns, its error is \<^verbatim>\<open>nil\<close>.
\<close>

theorem marshal_parse_no_error:
  "snd (parseCCInfo b) = None
   \<and> snd (parseCCAlgorithm b) = None
   \<and> snd (CCAlgorithm_Marshal cca) = None
   \<and> CCInfo_Marshal (Some cci) = Inr (Raw cci, None)
   \<and> CCInfo_Marshal None = Inl NilDereference
   \<and> (\<forall>r. CCInfo_Marshal p = Inr r \<longrightarrow> snd r = None)"
  by (auto simp: parseCCInfo_def parseCCAlgorithm_def CCInfo_Marshal_def CCAlgorithm_Marshal_def
      split: option.splits)

theorem marshal_parse_no_error_witness:
  "CCInfo_Marshal (Some \<lparr>Raw = Some [1, 2]\<rparr>) = Inr (Some [1, 2], None)
   \<and> snd (Some [1, 2 :: byte], None :: error option) = None
   \<and> CCInfo_Marshal None = Inl NilDereference"
proof -
  note t = marshal_parse_no_error [of None "[]" "\<lparr>Raw = Some [1, 2]\<rparr>" "Some \<lparr>Raw = Some [1, 2]\<rparr>"]
  have ret: "CCInfo_Marshal (Some \<lparr>Raw = Some [1, 2]\<rparr>) = Inr (Some [1, 2], None)"
    using t [THEN conjunct2, THEN conjunct2, THEN conjunct2, THEN conjunct1] by simp
  have "snd (Some [1, 2 :: byte], None :: error option) = None"
    using t [THEN conjunct2, THEN conjunct2, THEN conjunct2, THEN conjunct2, THEN conjunct2,
        rule_format, OF ret] .
  moreover have "CCInfo_Marshal None = Inl NilDereference"
    using t [THEN conjunct2, THEN conjunct2, THEN conjunct2, THEN conjunct2, THEN conjunct1] .
  ultimately show ?thesis
    using ret by (intro conjI)
qed

text \<open>
  C9, as stated, fails: \<^verbatim>\<open>CCInfo.Marshal\<close> on the \<^verbatim>\<open>nil\<close> receiver does not return,
  so it returns no \<^verbatim>\<open>nil\<close> error there and is not total.
\<close>

theorem CCInfo_Marshal_nil_counterexample:
  "CCInfo_Marshal None = Inl NilDereference
   \<and> \<not> (\<exists>b. CCInfo_Marshal None = Inr (b, None))"
  by (simp add: CCInfo_Marshal_def)

text \<open>
  C3. In the document that \<^verbatim>\<open>Info.MarshalJSON\<close> produces, the key \<^verbatim>\<open>flow_ctl\<close> is
  present exactly when \<^verbatim>\<open>FlowControl\<close> is not \<^verbatim>\<open>nil\<close>, \<^verbatim>\<open>cong_ctl\<close> exactly
  when \<^verbatim>\<open>CongestionControl\<close> is not \<^verbatim>\<open>nil\<close>, and \<^verbatim>\<open>sys\<close> exactly when
  \<^verbatim>\<open>Sys\<close> is not \<^verbatim>\<open>nil\<close>; none of the three is ever written as \<^verbatim>\<open>null\<close>.
\<close>

theorem MarshalJSON_optional_blocks:
  assumes "MarshalJSON i = (Some doc, None)"
  shows "(''flow_ctl'' \<in> keys doc \<longleftrightarrow> FlowControl i \<noteq> None)
    \<and> (''cong_ctl'' \<in> keys doc \<longleftrightarrow> CongestionControl i \<noteq> None)
    \<and> (''sys'' \<in> keys doc \<longleftrightarrow> Sys i \<noteq> None)
    \<and> member doc ''flow_ctl'' \<noteq> Some JNull
    \<and> member doc ''cong_ctl'' \<noteq> Some JNull
    \<and> member doc ''sys'' \<noteq> Some JNull"
proof -
  have keys: "k \<in> keys doc \<longleftrightarrow> map_of (raw_of i) k \<noteq> None" for k
    using document_keys [OF assms] by (auto simp: dom_def)
  have flow: "member doc ''flow_ctl'' \<noteq> Some JNull"
  proof (cases "FlowControl i")
    case None
    then have "''flow_ctl'' \<notin> keys doc"
      by (simp add: keys raw_of_flow_ctl)
    then show ?thesis by (simp add: member_keys)
  next
    case (Some fc)
    then show ?thesis
      using document_member [OF assms, of "''flow_ctl''" "VFlowControl fc"]
      by (auto simp: raw_of_flow_ctl)
  qed
  have cong: "member doc ''cong_ctl'' \<noteq> Some JNull"
  proof (cases "CongestionControl i")
    case None
    then have "''cong_ctl'' \<notin> keys doc"
      by (simp add: keys raw_of_cong_ctl)
    then show ?thesis by (simp add: member_keys)
  next
    case (Some cc)
    then show ?thesis
      using document_member [OF assms, of "''cong_ctl''" "VCongestionControl cc"]
      by (auto simp: raw_of_cong_ctl)
  qed
  have sys: "member doc ''sys'' \<noteq> Some JNull"
  proof (cases "Sys i")
    case None
    then have "''sys'' \<notin> keys doc"
      by (simp add: keys raw_of_sys)
    then show ?thesis by (simp add: member_keys)
  next
    case (Some fs)
    then show ?thesis
      using document_member [OF assms, of "''sys''" "VSysInfo fs"]
      by (auto simp: raw_of_sys)
  qed
  show ?thesis
    using flow cong sys by (simp add: keys raw_of_flow_ctl raw_of_cong_ctl raw_of_sys)
qed

theorem MarshalJSON_optional_blocks_witness:
  "MarshalJSON example_info = (Some example_doc, None)
   \<and> FlowControl example_info \<noteq> None \<and> ''flow_ctl'' \<in> keys example_doc
   \<and> CongestionControl example_info = None \<and> ''cong_ctl'' \<notin> keys example_doc
   \<and> Sys example_info = None \<and> ''sys'' \<notin> keys example_doc
   \<and> member example_doc ''flow_ctl'' \<noteq> Some JNull"
  using MarshalJSON_optional_blocks [OF example_marshal] example_marshal
  by (simp add: example_info_def)

text \<open>
  C8. The document maps the key \<^verbatim>\<open>state\<close> to the string that \<^verbatim>\<open>State.String\<close>
  returns, a JSON string and not a number.
\<close>

theorem MarshalJSON_state:
  assumes "MarshalJSON i = (Some doc, None)"
  shows "member doc ''state'' = Some (JStr (State_String (State i)))"
  using document_member [OF assms, of "''state''"] by (simp add: raw_of_state)

theorem MarshalJSON_state_witness:
  "MarshalJSON example_info = (Some example_doc, None)
   \<and> member example_doc ''state'' = Some (JStr ''established'')"
  using MarshalJSON_state [OF example_marshal] example_marshal
  by (simp add: example_info_def State_String_def states_defined)

text \<open>
  C10. The document has the key \<^verbatim>\<open>opts\<close> exactly when \<^verbatim>\<open>Options\<close> is not empty,
  and the key \<^verbatim>\<open>peer_opts\<close> exactly when \<^verbatim>\<open>PeerOptions\<close> is not empty.
\<close>

theorem MarshalJSON_opts_keys:
  assumes "MarshalJSON i = (Some doc, None)"
  shows "(''opts'' \<in> keys doc \<longleftrightarrow> Options i \<noteq> [])
    \<and> (''peer_opts'' \<in> keys doc \<longleftrightarrow> PeerOptions i \<noteq> [])"
  using document_keys [OF assms]
  by (auto simp: dom_def raw_of_opts raw_of_peer_opts split: if_splits)

theorem MarshalJSON_opts_keys_witness:
  "MarshalJSON example_info = (Some example_doc, None)
   \<and> Options example_info \<noteq> [] \<and> ''opts'' \<in> keys example_doc
   \<and> PeerOptions example_info = [] \<and> ''peer_opts'' \<notin> keys example_doc"
  using MarshalJSON_opts_keys [OF example_marshal] example_marshal
  by (simp add: example_info_def)

text \<open>
  C4. A non-empty \<^verbatim>\<open>Options\<close> sequence is written under \<^verbatim>\<open>opts\<close> as an object, not
  an array, with one member for each kind name that occurs in the sequence; the member
  of a kind name holds the encoding of the last option of the sequence with that name,
  so that options sharing a name collapse to one member. The same holds for
  \<^verbatim>\<open>PeerOptions\<close> under \<^verbatim>\<open>peer_opts\<close>.
\<close>

theorem MarshalJSON_options_mapping:
  assumes "MarshalJSON i = (Some doc, None)"
  shows "(Options i \<noteq> [] \<longrightarrow>
       (\<exists>ms. member doc ''opts'' = Some (JObj ms)
          \<and> distinct (map fst ms)
          \<and> fst ` set ms = Kind_String ` set (Options i)
          \<and> (\<forall>k opt. last_of_kind k (Options i) = Some opt \<longrightarrow>
                (\<exists>e. encoding opt = Inr e \<and> map_of ms k = Some e))))
    \<and> (PeerOptions i \<noteq> [] \<longrightarrow>
       (\<exists>ms. member doc ''peer_opts'' = Some (JObj ms)
          \<and> distinct (map fst ms)
          \<and> fst ` set ms = Kind_String ` set (PeerOptions i)
          \<and> (\<forall>k opt. last_of_kind k (PeerOptions i) = Some opt \<longrightarrow>
                (\<exists>e. encoding opt = Inr e \<and> map_of ms k = Some e))))"
proof (intro conjI impI)
  assume "Options i \<noteq> []"
  then have "map_of (raw_of i) ''opts'' = Some (VOpts (range_opts [] (Options i)))"
    by (simp add: raw_of_opts)
  then obtain j where "encode_val (VOpts (range_opts [] (Options i))) = Inr j"
    and "member doc ''opts'' = Some j"
    using document_member [OF assms] by blast
  then show "\<exists>ms. member doc ''opts'' = Some (JObj ms)
          \<and> distinct (map fst ms)
          \<and> fst ` set ms = Kind_String ` set (Options i)
          \<and> (\<forall>k opt. last_of_kind k (Options i) = Some opt \<longrightarrow>
                (\<exists>e. encoding opt = Inr e \<and> map_of ms k = Some e))"
    using options_object [of "Options i" j] by auto
next
  assume "PeerOptions i \<noteq> []"
  then have "map_of (raw_of i) ''peer_opts'' = Some (VOpts (range_opts [] (PeerOptions i)))"
    by (simp add: raw_of_peer_opts)
  then obtain j where "encode_val (VOpts (range_opts [] (PeerOptions i))) = Inr j"
    and "member doc ''peer_opts'' = Some j"
    using document_member [OF assms] by blast
  then show "\<exists>ms. member doc ''peer_opts'' = Some (JObj ms)
          \<and> distinct (map fst ms)
          \<and> fst ` set ms = Kind_String ` set (PeerOptions i)
          \<and> (\<forall>k opt. last_of_kind k (PeerOptions i) = Some opt \<longrightarrow>
                (\<exists>e. encoding opt = Inr e \<and> map_of ms k = Some e))"
    using options_object [of "PeerOptions i" j] by auto
qed

theorem MarshalJSON_options_mapping_witness:
  "MarshalJSON example_info = (Some example_doc, None)
   \<and> Options example_info \<noteq> []
   \<and> last_of_kind ''mss'' (Options example_info)
       = Some \<lparr>Kind_String = ''mss'', encoding = Inr (JNum 536)\<rparr>
   \<and> (\<exists>ms. member example_doc ''opts'' = Some (JObj ms)
         \<and> distinct (map fst ms)
         \<and> fst ` set ms = {''mss'', ''wscale''}
         \<and> map_of ms ''mss'' = Some (JNum 536))"
proof -
  have ne: "Options example_info \<noteq> []"
    by (simp add: example_info_def)
  have last: "last_of_kind ''mss'' (Options example_info)
       = Some \<lparr>Kind_String = ''mss'', encoding = Inr (JNum 536)\<rparr>"
    by (simp add: example_info_def last_of_kind_def)
  have names: "Kind_String ` set (Options example_info) = {''mss'', ''wscale''}"
    by (simp add: example_info_def insert_commute)
  from MarshalJSON_options_mapping [OF example_marshal, THEN conjunct1, THEN mp, OF ne]
  obtain ms where m: "member example_doc ''opts'' = Some (JObj ms)"
    and d: "distinct (map fst ms)"
    and k: "fst ` set ms = Kind_String ` set (Options example_info)"
    and all: "\<forall>k opt. last_of_kind k (Options example_info) = Some opt \<longrightarrow>
                (\<exists>e. encoding opt = Inr e \<and> map_of ms k = Some e)"
    by (elim exE conjE)
  from all [rule_format, OF last] obtain e
    where "encoding \<lparr>Kind_String = ''mss'', encoding = Inr (JNum 536)\<rparr> = Inr e"
      and "map_of ms ''mss'' = Some e"
    by (elim exE conjE)
  then have v: "map_of ms ''mss'' = Some (JNum 536)"
    by simp
  have "\<exists>ms. member example_doc ''opts'' = Some (JObj ms)
         \<and> distinct (map fst ms)
         \<and> fst ` set ms = {''mss'', ''wscale''}
         \<and> map_of ms ''mss'' = Some (JNum 536)"
    using m d k v names by (intro exI [of _ ms]) simp
  then show ?thesis
    using example_marshal ne last by (intro conjI)
qed

text \<open>
  C7, as amended. \<^verbatim>\<open>CCInfo.Marshal\<close>, \<^verbatim>\<open>parseCCInfo\<close>, \<^verbatim>\<open>CCAlgorithm.Marshal\<close> and
  \<^verbatim>\<open>parseCCAlgorithm\<close> never return an error. \<^verbatim>\<open>ParseCCAlgorithmInfo\<close> returns the
  error of the platform's \<^verbatim>\<open>parseCCAlgorithmInfo\<close> as it is, which for the decoder
  registry is none or "operation not supported". \<^verbatim>\<open>Info.MarshalJSON\<close> raises no error
  of its own and returns the error of \<^verbatim>\<open>json.Marshal\<close>. That error is none exactly
  when every option that is left in the map of \<^verbatim>\<open>Options\<close> or of \<^verbatim>\<open>PeerOptions\<close>
  after the loop, the last option of each kind name, encodes; otherwise it is the
  encoding error of one of these last options, and neither "operation not supported"
  nor "buffer too short".
\<close>

theorem operation_errors:
  "(\<forall>r. CCInfo_Marshal p = Inr r \<longrightarrow> snd r = None)
   \<and> snd (parseCCInfo b) = None
   \<and> snd (CCAlgorithm_Marshal cca) = None
   \<and> snd (parseCCAlgorithm b) = None
   \<and> snd (ParseCCAlgorithmInfo inner name b) = snd (inner name b)
   \<and> snd (ParseCCAlgorithmInfo (parseCCAlgorithmInfo reg) name b) \<in> {None, Some errOpNoSupport}
   \<and> (\<forall>err. snd (MarshalJSON i) = Some err \<longrightarrow>
         err \<noteq> errOpNoSupport \<and> err \<noteq> errBufferTooShort
         \<and> (\<exists>k opt e.
               (last_of_kind k (Options i) = Some opt \<or> last_of_kind k (PeerOptions i) = Some opt)
               \<and> encoding opt = Inl e \<and> err = errJSON e))
   \<and> (snd (MarshalJSON i) = None \<longleftrightarrow>
        (\<forall>k opt. last_of_kind k (Options i) = Some opt \<or> last_of_kind k (PeerOptions i) = Some opt
           \<longrightarrow> (\<exists>j. encoding opt = Inr j)))"
proof -
  have marshal: "snd r = None" if "CCInfo_Marshal p = Inr r" for r
    using that by (auto simp: CCInfo_Marshal_def split: option.splits)
  have wrap: "snd (ParseCCAlgorithmInfo f name b) = snd (f name b)"
    for f :: "string \<Rightarrow> bytes \<Rightarrow> 'c option \<times> error option"
    by (cases "f name b") (simp add: ParseCCAlgorithmInfo_def)
  have reg: "snd (ParseCCAlgorithmInfo (parseCCAlgorithmInfo reg) name b) \<in> {None, Some errOpNoSupport}"
    by (simp add: wrap parseCCAlgorithmInfo_def split: option.splits)
  have fails: "err \<noteq> errOpNoSupport \<and> err \<noteq> errBufferTooShort
         \<and> (\<exists>k opt e.
               (last_of_kind k (Options i) = Some opt \<or> last_of_kind k (PeerOptions i) = Some opt)
               \<and> encoding opt = Inl e \<and> err = errJSON e)"
    if "snd (MarshalJSON i) = Some err" for err
  proof -
    from MarshalJSON_failure_last [OF that] obtain k opt e
      where "last_of_kind k (Options i) = Some opt \<or> last_of_kind k (PeerOptions i) = Some opt"
        and "encoding opt = Inl e" and "err = errJSON e"
      by (elim exE conjE)
    then show ?thesis by auto
  qed
  have ok: "snd (MarshalJSON i) = None \<longleftrightarrow>
        (\<forall>k opt. last_of_kind k (Options i) = Some opt \<or> last_of_kind k (PeerOptions i) = Some opt
           \<longrightarrow> (\<exists>j. encoding opt = Inr j))"
  proof
    assume "snd (MarshalJSON i) = None"
    then show "\<forall>k opt. last_of_kind k (Options i) = Some opt \<or> last_of_kind k (PeerOptions i) = Some opt
           \<longrightarrow> (\<exists>j. encoding opt = Inr j)"
      using MarshalJSON_last_encodes [of i] by blast
  next
    assume all: "\<forall>k opt. last_of_kind k (Options i) = Some opt \<or> last_of_kind k (PeerOptions i) = Some opt
           \<longrightarrow> (\<exists>j. encoding opt = Inr j)"
    show "snd (MarshalJSON i) = None"
    proof (cases "snd (MarshalJSON i)")
      case None
      then show ?thesis .
    next
      case (Some err)
      from MarshalJSON_failure_last [OF Some] obtain k opt e
        where last: "last_of_kind k (Options i) = Some opt \<or> last_of_kind k (PeerOptions i) = Some opt"
          and e: "encoding opt = Inl e"
        by (elim exE conjE)
      from all [rule_format, OF last] obtain j where "encoding opt = Inr j" ..
      with e show ?thesis by simp
    qed
  qed
  have plain: "snd (parseCCInfo b) = None \<and> snd (CCAlgorithm_Marshal cca) = None
      \<and> snd (parseCCAlgorithm b) = None"
    by (simp add: parseCCInfo_def CCAlgorithm_Marshal_def parseCCAlgorithm_def)
  show ?thesis
    using marshal plain wrap [of inner] reg fails ok by (intro conjI allI impI) auto
qed

theorem operation_errors_witness:
  "snd (MarshalJSON unencodable_info) = Some (errJSON ''json: unsupported type'')
   \<and> errJSON ''json: unsupported type'' \<noteq> errOpNoSupport
   \<and> errJSON ''json: unsupported type'' \<noteq> errBufferTooShort
   \<and> snd (MarshalJSON example_info) = None
   \<and> snd (MarshalJSON overwritten_info) = None
   \<and> CCInfo_Marshal (Some \<lparr>Raw = None\<rparr>) = Inr (None, None)
   \<and> snd (None :: bytes, None :: error option) = None"
proof -
  let ?inner = "\<lambda>name b. (None :: unit option, Some errOpNoSupport)"
  let ?reg = "Map.empty :: string \<rightharpoonup> (bytes \<Rightarrow> unit)"
  let ?p = "Some \<lparr>Raw = None\<rparr>"
  have all: "\<forall>k opt. last_of_kind k (Options example_info) = Some opt
        \<or> last_of_kind k (PeerOptions example_info) = Some opt
           \<longrightarrow> (\<exists>j. encoding opt = Inr j)"
    by (auto simp: example_info_def last_of_kind_def split: if_splits)
  have all': "\<forall>k opt. last_of_kind k (Options overwritten_info) = Some opt
        \<or> last_of_kind k (PeerOptions overwritten_info) = Some opt
           \<longrightarrow> (\<exists>j. encoding opt = Inr j)"
    by (auto simp: overwritten_info_def example_info_def last_of_kind_def split: if_splits)
  have err: "snd (MarshalJSON unencodable_info) = Some (errJSON ''json: unsupported type'')"
    by (simp add: unencodable_marshal)
  have ret: "CCInfo_Marshal ?p = Inr (None, None)"
    by (simp add: CCInfo_Marshal_def)
  note bad = operation_errors [of ?p None "[]" ?inner "[]" ?reg unencodable_info]
  note good = operation_errors [of ?p None "[]" ?inner "[]" ?reg example_info]
  note over = operation_errors [of ?p None "[]" ?inner "[]" ?reg overwritten_info]
  have nil: "snd (None :: bytes, None :: error option) = None"
    using good [THEN conjunct1, rule_format, OF ret] .
  have other: "errJSON ''json: unsupported type'' \<noteq> errOpNoSupport
      \<and> errJSON ''json: unsupported type'' \<noteq> errBufferTooShort"
    using bad [THEN conjunct2, THEN conjunct2, THEN conjunct2, THEN conjunct2,
        THEN conjunct2, THEN conjunct2, THEN conjunct1, rule_format, OF err] by (intro conjI) simp_all
  have none: "snd (MarshalJSON example_info) = None"
    using good [THEN conjunct2, THEN conjunct2, THEN conjunct2, THEN conjunct2,
        THEN conjunct2, THEN conjunct2, THEN conjunct2, THEN iffD2, OF all] .
  have none': "snd (MarshalJSON overwritten_info) = None"
    using over [THEN conjunct2, THEN conjunct2, THEN conjunct2, THEN conjunct2,
        THEN conjunct2, THEN conjunct2, THEN conjunct2, THEN iffD2, OF all'] .
  show ?thesis
    using err other none none' ret nil by (intro conjI) simp_all
qed

text \<open>
  C7, as stated, fails: for a connection with an option whose value does not encode,
  \<^verbatim>\<open>Info.MarshalJSON\<close> returns the encoder's error, which is neither "operation not
  supported" nor "buffer too short".
\<close>

theorem MarshalJSON_error_counterexample:
  "snd (MarshalJSON unencodable_info) = Some (errJSON ''json: unsupported type'')
   \<and> errJSON ''json: unsupported type'' \<noteq> errOpNoSupport
   \<and> errJSON ''json: unsupported type'' \<noteq> errBufferTooShort"
  by (simp add: unencodable_marshal)

end
